theory Spec2Isabelle
  imports Main
begin

section \<open>Python values used by the server\<close>

text \<open>
  A Python \<open>str\<close> is a sequence of Unicode code points, so it is a list of naturals
  (not of 8-bit \<open>char\<close>s); \<open>bytes\<close> is a list of 8-bit \<open>char\<close>s. Source literals are
  ASCII and written through \<open>ascii\<close>.
\<close>

type_synonym pystr = "nat list"
type_synonym bytes = "char list"

definition ascii :: "string \<Rightarrow> pystr" where
  "ascii s = map of_char s"

definition newline :: nat where
  "newline = 10"

text \<open>\<open>len(s) > 0\<close> and friends are plain list operations. \<open>str(n)\<close> for a non-negative
  integer, as the f-strings of the source format it.\<close>

function str_of_nat :: "nat \<Rightarrow> pystr" where
  "str_of_nat n = (if n < 10 then [48 + n] else str_of_nat (n div 10) @ [48 + n mod 10])"
  by pat_completeness auto
termination
  by (relation "measure id") auto

text \<open>Slicing \<open>xs[i:j]\<close> with Python's rules: a negative index counts from the end, and
  both ends are clipped to the sequence.\<close>

definition slice_index :: "nat \<Rightarrow> int \<Rightarrow> nat" where
  "slice_index n i = (if i < 0 then nat (int n + i) else min n (nat i))"

definition py_slice :: "'a list \<Rightarrow> int \<Rightarrow> int \<Rightarrow> 'a list" where
  "py_slice xs i j =
     (let lo = slice_index (length xs) i; hi = slice_index (length xs) j
      in take (hi - lo) (drop lo xs))"

text \<open>\<open>s.find(sub, start)\<close> for \<open>start \<ge> 0\<close>: the lowest index \<open>\<ge> start\<close> at which
  \<open>sub\<close> occurs in \<open>s\<close>; Python's \<open>-1\<close> is \<open>None\<close>. An empty \<open>sub\<close> is found at
  \<open>start\<close> itself as long as \<open>start \<le> len(s)\<close>.\<close>

function py_find :: "'a list \<Rightarrow> 'a list \<Rightarrow> nat \<Rightarrow> nat option" where
  "py_find s sub start =
     (if length s < start + length sub then None
      else if take (length sub) (drop start s) = sub then Some start
      else py_find s sub (Suc start))"
  by pat_completeness auto
termination
  by (relation "measure (\<lambda>(s, sub, start). Suc (length s) - start)") auto

text \<open>\<open>s.count(c)\<close> for a one-character \<open>c\<close> is \<open>count_list s c\<close>; \<open>s.endswith(suf)\<close>:\<close>

definition endswith :: "'a list \<Rightarrow> 'a list \<Rightarrow> bool" where
  "endswith s suf = (length suf \<le> length s \<and> drop (length s - length suf) s = suf)"

text \<open>\<open>s.split(sep)\<close> for a one-character separator: never the empty list.\<close>

fun split_on :: "'a \<Rightarrow> 'a list \<Rightarrow> 'a list list" where
  "split_on sep [] = [[]]"
| "split_on sep (c # cs) =
     (if c = sep then [] # split_on sep cs
      else (case split_on sep cs of [] \<Rightarrow> [[c]] | w # ws \<Rightarrow> (c # w) # ws))"

text \<open>\<open>s.strip()\<close>: the characters for which \<open>str.isspace\<close> holds are removed at both ends.\<close>

definition isspace :: "nat \<Rightarrow> bool" where
  "isspace c = ((9 \<le> c \<and> c \<le> 13) \<or> (28 \<le> c \<and> c \<le> 32) \<or> c = 133 \<or> c = 160
     \<or> c = 5760 \<or> (8192 \<le> c \<and> c \<le> 8202) \<or> c = 8232 \<or> c = 8233 \<or> c = 8239
     \<or> c = 8287 \<or> c = 12288)"

definition strip :: "pystr \<Rightarrow> pystr" where
  "strip s = rev (dropWhile isspace (rev (dropWhile isspace s)))"

section \<open>The substring search of \<open>search_file_content\<close>\<close>

record content_match =
  position :: nat
  context_window :: pystr
  line_number :: nat

text \<open>The body of the \<open>while True\<close> loop for a hit at \<open>pos\<close>: the dictionary appended to
  \<open>matches\<close>. \<open>context_chars\<close> is a Python \<open>int\<close> and may be negative.\<close>

definition match_at :: "pystr \<Rightarrow> pystr \<Rightarrow> int \<Rightarrow> nat \<Rightarrow> content_match" where
  "match_at content query context_chars pos =
     (let context_start = max 0 (int pos - context_chars);
          context_end = min (int (length content)) (int pos + int (length query) + context_chars)
      in \<lparr>position = pos,
          context_window = py_slice content context_start context_end,
          line_number = count_list (py_slice content 0 (int pos)) newline + 1\<rparr>)"

text \<open>The loop itself, with its two variables \<open>matches\<close> and \<open>start\<close>.\<close>

function search_loop ::
  "pystr \<Rightarrow> pystr \<Rightarrow> int \<Rightarrow> pystr \<Rightarrow> pystr \<Rightarrow> content_match list \<Rightarrow> nat \<Rightarrow> content_match list"
where
  "search_loop content query context_chars content_lower query_lower matches start =
     (case py_find content_lower query_lower start of
        None \<Rightarrow> matches
      | Some pos \<Rightarrow>
          search_loop content query context_chars content_lower query_lower
            (matches @ [match_at content query context_chars pos]) (pos + 1))"
  by pat_completeness auto
termination
proof (relation "measure (\<lambda>(content, query, context_chars, content_lower, query_lower, matches, start).
                   Suc (length content_lower) - start)")
  show "wf (measure (\<lambda>(content, query, context_chars, content_lower, query_lower, matches, start).
                   Suc (length content_lower) - start))"
    by simp
next
  fix content query :: pystr and context_chars :: int and content_lower query_lower :: pystr
    and matches :: "content_match list" and start pos :: nat
  assume found: "py_find content_lower query_lower start = Some pos"
  have "py_find s sub i = Some p \<Longrightarrow> i \<le> p \<and> p \<le> length s"
    for s sub :: pystr and i p
  proof (induction s sub i rule: py_find.induct)
    case (1 s sub start)
    then show ?case
      by (auto split: if_splits)
  qed
  from this [OF found] have "start \<le> pos" and "pos \<le> length content_lower"
    by simp_all
  then show "((content, query, context_chars, content_lower, query_lower,
                matches @ [match_at content query context_chars pos], pos + 1),
              (content, query, context_chars, content_lower, query_lower, matches, start))
             \<in> measure (\<lambda>(content, query, context_chars, content_lower, query_lower, matches, start).
                   Suc (length content_lower) - start)"
    by simp
qed

section \<open>Exceptions, the remote client and the process state\<close>

text \<open>Every exception below is a subclass of Python's \<open>Exception\<close>, so \<open>except Exception\<close>
  catches each of them. \<open>exc_str\<close> is \<open>str(e)\<close>, the text the f-strings of the source
  interpolate.\<close>

datatype py_exception =
    ValueError pystr
  | ApiError pystr
  | AuthError pystr
  | AttributeError pystr
  | OtherException pystr

fun exc_str :: "py_exception \<Rightarrow> pystr" where
  "exc_str (ValueError m) = m"
| "exc_str (ApiError m) = m"
| "exc_str (AuthError m) = m"
| "exc_str (AttributeError m) = m"
| "exc_str (OtherException m) = m"

text \<open>What the Dropbox SDK hands back: \<open>match.metadata.metadata\<close> is a \<open>FileMetadata\<close> or some
  other metadata; \<open>path_lower\<close> is optional in the SDK; \<open>server_modified\<close> holds the text
  \<open>server_modified.isoformat()\<close> gives.\<close>

record file_metadata =
  name :: pystr
  path_lower :: "pystr option"
  size_bytes :: int
  server_modified :: pystr

datatype metadata = FileMetadata file_metadata | FolderMetadata pystr | DeletedMetadata pystr

text \<open>The remote store, as the handle \<open>dropbox_client\<close> exposes it. An answer depends on the
  request only.\<close>

record client =
  users_get_current_account :: "py_exception + unit"
  files_download :: "pystr \<Rightarrow> py_exception + bytes"
  files_search_v2 :: "pystr \<Rightarrow> int \<Rightarrow> py_exception + metadata list"

text \<open>What the code takes from the Python runtime and its optional libraries: \<open>str.lower\<close>
  (a built-in over the Unicode tables), the UTF-8 decoder (\<open>None\<close> is \<open>UnicodeDecodeError\<close>),
  the modules \<open>PyPDF2\<close> and \<open>docx\<close> (\<open>None\<close> when the import failed; otherwise the reader,
  which fails or yields the pages or paragraphs, whose text extraction may fail in turn), the
  environment variable \<open>DROPBOX_ACCESS_TOKEN\<close> and the constructor \<open>dropbox.Dropbox\<close>.\<close>

record runtime =
  str_lower :: "pystr \<Rightarrow> pystr"
  decode_utf8 :: "bytes \<Rightarrow> pystr option"
  PyPDF2 :: "(bytes \<Rightarrow> py_exception + (py_exception + pystr) list) option"
  Document :: "(bytes \<Rightarrow> py_exception + (py_exception + pystr) list) option"
  getenv_token :: "pystr option"
  Dropbox :: "pystr \<Rightarrow> py_exception + client"

datatype log_level = INFO | WARNING

datatype remote_call = GetCurrentAccount | Download pystr | SearchV2 pystr int

text \<open>The mutable part: the global \<open>dropbox_client\<close>, what \<open>logger\<close> has written, and the
  requests sent to the remote store so far.\<close>

record state =
  dropbox_client :: "client option"
  log :: "(log_level \<times> pystr) list"
  remote_calls :: "remote_call list"

definition initialize_dropbox_client :: "runtime \<Rightarrow> state \<Rightarrow> (py_exception + unit) \<times> state" where
  "initialize_dropbox_client rt st =
     (case getenv_token rt of
        None \<Rightarrow>
          (Inl (ValueError (ascii (''DROPBOX_ACCESS_TOKEN environment variable is required. '' @
             ''Get your token from https://www.dropbox.com/developers/apps''))), st)
      | Some access_token \<Rightarrow>
          if access_token = [] then
            (Inl (ValueError (ascii (''DROPBOX_ACCESS_TOKEN environment variable is required. '' @
               ''Get your token from https://www.dropbox.com/developers/apps''))), st)
          else
            (case Dropbox rt access_token of
               Inl (AuthError m) \<Rightarrow>
                 (Inl (ValueError (ascii ''Invalid Dropbox access token: '' @ m)), st)
             | Inl e \<Rightarrow>
                 (Inl (ValueError (ascii ''Failed to initialize Dropbox client: '' @ exc_str e)), st)
             | Inr c \<Rightarrow>
                 (let st1 = st\<lparr>dropbox_client := Some c,
                                remote_calls := remote_calls st @ [GetCurrentAccount]\<rparr>
                  in case users_get_current_account c of
                       Inl (AuthError m) \<Rightarrow>
                         (Inl (ValueError (ascii ''Invalid Dropbox access token: '' @ m)), st1)
                     | Inl e \<Rightarrow>
                         (Inl (ValueError
                            (ascii ''Failed to initialize Dropbox client: '' @ exc_str e)), st1)
                     | Inr u \<Rightarrow>
                         (Inr (), st1\<lparr>log := log st1 @
                            [(INFO, ascii ''Dropbox client initialized successfully'')]\<rparr>))))"

text \<open>The first statement of every tool: \<open>if not dropbox_client: initialize_dropbox_client()\<close>.\<close>

definition ensure_client :: "runtime \<Rightarrow> state \<Rightarrow> (py_exception + unit) \<times> state" where
  "ensure_client rt st =
     (case dropbox_client st of
        None \<Rightarrow> initialize_dropbox_client rt st
      | Some c \<Rightarrow> (Inr (), st))"

section \<open>Text extraction\<close>

text \<open>The \<open>for\<close> loops of the two extractors: \<open>text += page.extract_text() + "\n"\<close>, stopping
  at the first exception.\<close>

fun join_lines :: "(py_exception + pystr) list \<Rightarrow> pystr \<Rightarrow> py_exception + pystr" where
  "join_lines [] text = Inr text"
| "join_lines (Inl e # rest) text = Inl e"
| "join_lines (Inr t # rest) text = join_lines rest (text @ t @ [newline])"

definition extract_text_from_pdf :: "runtime \<Rightarrow> bytes \<Rightarrow> py_exception + pystr" where
  "extract_text_from_pdf rt file_content =
     (case PyPDF2 rt of
        None \<Rightarrow> Inr (ascii ''[PDF text extraction not available - install PyPDF2]'')
      | Some pdf_reader \<Rightarrow>
          (case (case pdf_reader file_content of
                   Inl e \<Rightarrow> Inl e
                 | Inr pages \<Rightarrow>
                     (case join_lines pages [] of Inl e \<Rightarrow> Inl e | Inr text \<Rightarrow> Inr (strip text)))
           of Inl e \<Rightarrow> Inr (ascii ''[Error extracting PDF text: '' @ exc_str e @ ascii '']'')
            | Inr text \<Rightarrow> Inr text))"

definition extract_text_from_docx :: "runtime \<Rightarrow> bytes \<Rightarrow> py_exception + pystr" where
  "extract_text_from_docx rt file_content =
     (case Document rt of
        None \<Rightarrow> Inr (ascii ''[DOCX text extraction not available - install python-docx]'')
      | Some document \<Rightarrow>
          (case (case document file_content of
                   Inl e \<Rightarrow> Inl e
                 | Inr paragraphs \<Rightarrow>
                     (case join_lines paragraphs [] of
                        Inl e \<Rightarrow> Inl e
                      | Inr text \<Rightarrow> Inr (strip text)))
           of Inl e \<Rightarrow> Inr (ascii ''[Error extracting DOCX text: '' @ exc_str e @ ascii '']'')
            | Inr text \<Rightarrow> Inr text))"

text \<open>\<open>bytes.decode('latin-1')\<close> maps every byte to the code point of the same number and
  cannot fail; the source still guards it.\<close>

definition decode_latin1 :: "bytes \<Rightarrow> pystr option" where
  "decode_latin1 b = Some (map of_char b)"

text \<open>The \<open>try\<close> body of \<open>get_file_content\<close>: download, then dispatch on the extension.\<close>

definition download_and_extract :: "runtime \<Rightarrow> client \<Rightarrow> pystr \<Rightarrow> py_exception + pystr" where
  "download_and_extract rt c file_path =
     (case files_download c file_path of
        Inl e \<Rightarrow> Inl e
      | Inr file_content \<Rightarrow>
          (let file_ext = last (split_on (of_char CHR ''.'') (str_lower rt file_path))
           in if file_ext = ascii ''pdf'' then extract_text_from_pdf rt file_content
              else if file_ext \<in> set [ascii ''docx'', ascii ''doc''] then
                extract_text_from_docx rt file_content
              else if file_ext \<in> set [ascii ''txt'', ascii ''md'', ascii ''py'', ascii ''js'',
                        ascii ''html'', ascii ''css'', ascii ''json'', ascii ''csv''] then
                (case decode_utf8 rt file_content of
                   Some text \<Rightarrow> Inr text
                 | None \<Rightarrow>
                     (case decode_latin1 file_content of
                        Some text \<Rightarrow> Inr text
                      | None \<Rightarrow> Inr (ascii ''[Binary file - cannot display as text]'')))
              else Inr (ascii ''[Unsupported file type: '' @ file_ext @ ascii '']'')))"

definition get_file_content :: "runtime \<Rightarrow> state \<Rightarrow> pystr \<Rightarrow> (py_exception + pystr) \<times> state" where
  "get_file_content rt st file_path =
     (case dropbox_client st of
        None \<Rightarrow> (Inl (ValueError (ascii ''Dropbox client not initialized'')), st)
      | Some c \<Rightarrow>
          (case download_and_extract rt c file_path of
             Inl (ApiError m) \<Rightarrow> Inl (ValueError (ascii ''Dropbox API error: '' @ m))
           | Inl e \<Rightarrow> Inl (ValueError (ascii ''Error reading file: '' @ exc_str e))
           | Inr text \<Rightarrow> Inr text,
           st\<lparr>remote_calls := remote_calls st @ [Download file_path]\<rparr>))"

section \<open>The tools\<close>

subsection \<open>\<open>read_file\<close>\<close>

definition read_file :: "runtime \<Rightarrow> state \<Rightarrow> pystr \<Rightarrow> int \<Rightarrow> (py_exception + pystr) \<times> state" where
  "read_file rt st file_path max_length =
     (case ensure_client rt st of
        (Inl e, st1) \<Rightarrow> (Inl e, st1)
      | (Inr u, st1) \<Rightarrow>
          (case get_file_content rt st1 file_path of
             (Inl e, st2) \<Rightarrow>
               (Inl (ValueError (ascii ''Failed to read file '' @ file_path @ ascii '': '' @
                  exc_str e)), st2)
           | (Inr content, st2) \<Rightarrow>
               (if max_length > 0 \<and> int (length content) > max_length then
                  Inr (py_slice content 0 max_length @
                       [newline, newline] @ ascii ''[Content truncated - file has '' @
                       str_of_nat (length content) @ ascii '' total characters]'')
                else Inr content, st2)))"

subsection \<open>\<open>search_file_content\<close>\<close>

record content_result =
  file_path :: pystr
  file_name :: pystr
  matches :: "content_match list"
  total_matches :: nat

text \<open>The search of one extracted text: lower both once, then run the loop from
  \<open>matches = []\<close> and \<open>start = 0\<close>.\<close>

definition search_content :: "runtime \<Rightarrow> pystr \<Rightarrow> pystr \<Rightarrow> int \<Rightarrow> content_match list" where
  "search_content rt content query context_chars =
     search_loop content query context_chars (str_lower rt content) (str_lower rt query) [] 0"

text \<open>The \<open>for file_path in file_paths\<close> loop with its \<open>try\<close>/\<open>except Exception\<close>.\<close>

fun search_paths ::
  "runtime \<Rightarrow> pystr \<Rightarrow> int \<Rightarrow> pystr list \<Rightarrow> content_result list \<Rightarrow> state
     \<Rightarrow> content_result list \<times> state"
where
  "search_paths rt query context_chars [] results st = (results, st)"
| "search_paths rt query context_chars (p # rest) results st =
     (case get_file_content rt st p of
        (Inl e, st1) \<Rightarrow>
          search_paths rt query context_chars rest results
            (st1\<lparr>log := log st1 @
               [(WARNING, ascii ''Error searching in '' @ p @ ascii '': '' @ exc_str e)]\<rparr>)
      | (Inr content, st1) \<Rightarrow>
          (let ms = search_content rt content query context_chars
           in search_paths rt query context_chars rest
                (if ms \<noteq> [] then
                   results @ [\<lparr>file_path = p,
                                file_name = last (split_on (of_char CHR ''/'') p),
                                matches = ms,
                                total_matches = length ms\<rparr>]
                 else results) st1))"

definition search_file_content ::
  "runtime \<Rightarrow> state \<Rightarrow> pystr list \<Rightarrow> pystr \<Rightarrow> int \<Rightarrow> (py_exception + content_result list) \<times> state"
where
  "search_file_content rt st file_paths query context_chars =
     (case ensure_client rt st of
        (Inl e, st1) \<Rightarrow> (Inl e, st1)
      | (Inr u, st1) \<Rightarrow>
          (case search_paths rt query context_chars file_paths [] st1 of
             (results, st2) \<Rightarrow> (Inr results, st2)))"

subsection \<open>\<open>search_files\<close>\<close>

record SearchResult =
  sr_file_path :: pystr
  sr_file_name :: pystr
  match_context :: pystr
  file_size :: int
  modified :: pystr

text \<open>The \<open>if\<close>/\<open>elif\<close> chain that turns \<open>file_types\<close> into \<open>extensions\<close>.\<close>

definition parse_file_types :: "runtime \<Rightarrow> pystr \<Rightarrow> pystr list" where
  "parse_file_types rt file_types =
     (if str_lower rt file_types = ascii ''all'' then
        map ascii [''.pdf'', ''.docx'', ''.doc'', ''.txt'', ''.md'', ''.py'', ''.js'', ''.html'',
                   ''.css'', ''.json'', ''.csv'']
      else if str_lower rt file_types = ascii ''pdf'' then [ascii ''.pdf'']
      else if str_lower rt file_types = ascii ''docx'' then [ascii ''.docx'', ascii ''.doc'']
      else if str_lower rt file_types = ascii ''txt'' then [ascii ''.txt'', ascii ''.md'']
      else map (\<lambda>ext. ascii ''.'' @ strip ext) (split_on (of_char CHR '','') file_types))"

text \<open>The \<open>for match in search_result.matches\<close> loop. \<open>any(...)\<close> over no extension at all
  never calls \<open>endswith\<close>; otherwise a \<open>path_lower\<close> that is \<open>None\<close> raises
  \<open>AttributeError\<close>.\<close>

fun filter_matches ::
  "pystr list \<Rightarrow> int \<Rightarrow> metadata list \<Rightarrow> SearchResult list \<Rightarrow> py_exception + SearchResult list"
where
  "filter_matches extensions max_results [] results = Inr results"
| "filter_matches extensions max_results (m # rest) results =
     (if int (length results) \<ge> max_results then Inr results
      else
        (case m of
           FileMetadata md \<Rightarrow>
             (if extensions = [] then filter_matches extensions max_results rest results
              else
                (case path_lower md of
                   None \<Rightarrow>
                     Inl (AttributeError
                       ([39] @ ascii ''NoneType'' @ [39] @ ascii '' object has no attribute '' @
                        [39] @ ascii ''endswith'' @ [39]))
                 | Some fp \<Rightarrow>
                     (if list_ex (endswith fp) extensions then
                        filter_matches extensions max_results rest
                          (results @ [\<lparr>sr_file_path = fp,
                                       sr_file_name = name md,
                                       match_context = ascii ''Filename match: '' @ name md,
                                       file_size = size_bytes md,
                                       modified = server_modified md\<rparr>])
                      else filter_matches extensions max_results rest results)))
         | FolderMetadata x \<Rightarrow> filter_matches extensions max_results rest results
         | DeletedMetadata x \<Rightarrow> filter_matches extensions max_results rest results))"

definition search_files ::
  "runtime \<Rightarrow> state \<Rightarrow> pystr \<Rightarrow> pystr \<Rightarrow> int \<Rightarrow> (py_exception + SearchResult list) \<times> state"
where
  "search_files rt st query file_types max_results =
     (case ensure_client rt st of
        (Inl e, st1) \<Rightarrow> (Inl e, st1)
      | (Inr u, st1) \<Rightarrow>
          (let extensions = parse_file_types rt file_types
           in case dropbox_client st1 of
                None \<Rightarrow>
                  (Inl (ValueError (ascii ''Search failed: '' @
                     [39] @ ascii ''NoneType'' @ [39] @ ascii '' object has no attribute '' @
                     [39] @ ascii ''files_search_v2'' @ [39])), st1)
              | Some c \<Rightarrow>
                  (case (case files_search_v2 c query (max_results * 2) of
                           Inl e \<Rightarrow> Inl e
                         | Inr found \<Rightarrow> filter_matches extensions max_results found [])
                   of Inl e \<Rightarrow> Inl (ValueError (ascii ''Search failed: '' @ exc_str e))
                    | Inr results \<Rightarrow> Inr results,
                   st1\<lparr>remote_calls := remote_calls st1 @
                         [SearchV2 query (max_results * 2)]\<rparr>)))"

section \<open>A concrete runtime and remote store for the closed examples\<close>

text \<open>\<open>str.lower\<close> on the code points the examples use: ASCII, and U+0130 (LATIN CAPITAL
  LETTER I WITH DOT ABOVE), which Unicode's special casing lowers to the two code points
  U+0069 U+0307, so that in Python \<open>len(chr(0x130).lower()) == 2\<close>. Code points outside this
  table are left as they are here; no general theorem below depends on this table, they all
  take \<open>str_lower\<close> from the runtime.\<close>

definition lower_codepoint :: "nat \<Rightarrow> pystr" where
  "lower_codepoint c =
     (if 65 \<le> c \<and> c \<le> 90 then [c + 32] else if c = 304 then [105, 775] else [c])"

definition lower_table :: "pystr \<Rightarrow> pystr" where
  "lower_table s = concat (map lower_codepoint s)"

text \<open>A store holding the given files and answering every filename search with the first
  \<open>n\<close> of the given entries; the UTF-8 decoder of the example runtime accepts ASCII only,
  and no optional library is installed.\<close>

definition example_client :: "(pystr \<times> bytes) list \<Rightarrow> metadata list \<Rightarrow> client" where
  "example_client files found =
     \<lparr>users_get_current_account = Inr (),
      files_download = (\<lambda>p. case map_of files p of
                               None \<Rightarrow> Inl (ApiError (ascii ''path/not_found''))
                             | Some b \<Rightarrow> Inr b),
      files_search_v2 = (\<lambda>q n. Inr (take (nat n) found))\<rparr>"

definition example_runtime :: "(pystr \<times> bytes) list \<Rightarrow> metadata list \<Rightarrow> runtime" where
  "example_runtime files found =
     \<lparr>str_lower = lower_table,
      decode_utf8 = (\<lambda>b. if list_all (\<lambda>c. (of_char c :: nat) < 128) b
                           then Some (map of_char b) else None),
      PyPDF2 = None,
      Document = None,
      getenv_token = Some (ascii ''token''),
      Dropbox = (\<lambda>t. Inr (example_client files found))\<rparr>"

definition initial_state :: state where
  "initial_state = \<lparr>dropbox_client = None, log = [], remote_calls = []\<rparr>"

text \<open>A small store for the examples, the state of a process whose handle is already
  initialised, and the two entries a search for \<open>A\<close> finds in that store.\<close>

definition example_files :: "(pystr \<times> bytes) list" where
  "example_files = [(ascii ''/docs/a.txt'', ''xaay''), (ascii ''/b.txt'', ''zzz''),
                    (ascii ''/c.md'', ''Aha''),
                    (ascii ''/long.txt'', ''01234567890123456789012345678901234567890123456789'')]"

definition example_found :: "metadata list" where
  "example_found =
     [FileMetadata \<lparr>name = ascii ''Report.docx'', path_lower = Some (ascii ''/report.docx''),
                     size_bytes = 1200, server_modified = ascii ''2024-01-02T03:04:05''\<rparr>,
      FileMetadata \<lparr>name = ascii ''report-notes.txt'',
                     path_lower = Some (ascii ''/report-notes.txt''),
                     size_bytes = 80, server_modified = ascii ''2024-01-03T00:00:00''\<rparr>,
      FolderMetadata (ascii ''reports''),
      FileMetadata \<lparr>name = ascii ''report-old.doc'', path_lower = Some (ascii ''/report-old.doc''),
                     size_bytes = 900, server_modified = ascii ''2023-12-31T23:59:59''\<rparr>,
      FileMetadata \<lparr>name = ascii ''report2.docx'', path_lower = Some (ascii ''/report2.docx''),
                     size_bytes = 10, server_modified = ascii ''2024-02-01T00:00:00''\<rparr>]"

definition example_hits :: "SearchResult list" where
  "example_hits =
     [\<lparr>sr_file_path = ascii ''/report.docx'', sr_file_name = ascii ''Report.docx'',
       match_context = ascii ''Filename match: Report.docx'', file_size = 1200,
       modified = ascii ''2024-01-02T03:04:05''\<rparr>,
      \<lparr>sr_file_path = ascii ''/report-old.doc'', sr_file_name = ascii ''report-old.doc'',
       match_context = ascii ''Filename match: report-old.doc'', file_size = 900,
       modified = ascii ''2023-12-31T23:59:59''\<rparr>]"

text \<open>A runtime whose PDF reader rejects every file and whose DOCX reader fails on the
  second paragraph.\<close>

definition failing_runtime :: runtime where
  "failing_runtime =
     (example_runtime [] [])
       \<lparr>PyPDF2 := Some (\<lambda>b. Inl (OtherException (ascii ''EOF marker not found''))),
        Document := Some (\<lambda>b. Inr [Inr (ascii ''Hello''),
                                       Inl (OtherException (ascii ''bad paragraph''))])\<rparr>"

definition ready_state :: "client \<Rightarrow> state" where
  "ready_state c = \<lparr>dropbox_client = Some c, log = [], remote_calls = []\<rparr>"

definition example_entry_a :: content_result where
  "example_entry_a =
     \<lparr>file_path = ascii ''/docs/a.txt'', file_name = ascii ''a.txt'',
      matches = [\<lparr>position = 1, context_window = ascii ''xaa'', line_number = 1\<rparr>,
                 \<lparr>position = 2, context_window = ascii ''aay'', line_number = 1\<rparr>],
      total_matches = 2\<rparr>"

definition example_entry_c :: content_result where
  "example_entry_c =
     \<lparr>file_path = ascii ''/c.md'', file_name = ascii ''c.md'',
      matches = [\<lparr>position = 0, context_window = ascii ''Ah'', line_number = 1\<rparr>,
                 \<lparr>position = 2, context_window = ascii ''ha'', line_number = 1\<rparr>],
      total_matches = 2\<rparr>"

section \<open>Vocabulary of the properties\<close>

text \<open>\<open>sub\<close> occurs in \<open>s\<close> at offset \<open>p\<close>; all such offsets in ascending order, overlapping
  ones included; and the substring \<open>[a, b)\<close> of a text.\<close>

definition occurs_at :: "'a list \<Rightarrow> 'a list \<Rightarrow> nat \<Rightarrow> bool" where
  "occurs_at s sub p = (p + length sub \<le> length s \<and> take (length sub) (drop p s) = sub)"

definition occurrences :: "'a list \<Rightarrow> 'a list \<Rightarrow> nat list" where
  "occurrences s sub = filter (occurs_at s sub) [0..<Suc (length s)]"

definition substring :: "'a list \<Rightarrow> nat \<Rightarrow> nat \<Rightarrow> 'a list" where
  "substring xs a b = take (b - a) (drop a xs)"

text \<open>A case-insensitive occurrence of \<open>Q\<close> in \<open>T\<close>, on the text itself: an offset \<open>p\<close> of \<open>T\<close>
  such that the \<open>len(Q)\<close> characters of \<open>T\<close> from \<open>p\<close> on exist and differ from \<open>Q\<close> in case
  only, that is, lower-case to the lower-cased \<open>Q\<close>. All of them, overlapping ones included,
  in ascending order.\<close>

definition ci_occurrences :: "(pystr \<Rightarrow> pystr) \<Rightarrow> pystr \<Rightarrow> pystr \<Rightarrow> nat list" where
  "ci_occurrences lower T Q =
     filter (\<lambda>p. p + length Q \<le> length T \<and> lower (take (length Q) (drop p T)) = lower Q)
       [0..<Suc (length T)]"

text \<open>The number a string of decimal digits stands for.\<close>

definition nat_of_digits :: "pystr \<Rightarrow> nat" where
  "nat_of_digits ds = foldl (\<lambda>a d. 10 * a + (d - 48)) 0 ds"

text \<open>What one path contributes to the result of \<open>search_file_content\<close> and to the log, for a
  state holding the handle: nothing and a warning when \<open>get_file_content\<close> raises, an
  entry when the text has matches.\<close>

definition path_entry :: "runtime \<Rightarrow> state \<Rightarrow> pystr \<Rightarrow> int \<Rightarrow> pystr \<Rightarrow> content_result list" where
  "path_entry rt st query context_chars p =
     (case fst (get_file_content rt st p) of
        Inl e \<Rightarrow> []
      | Inr content \<Rightarrow>
          (if search_content rt content query context_chars = [] then []
           else [\<lparr>file_path = p,
                  file_name = last (split_on (of_char CHR ''/'') p),
                  matches = search_content rt content query context_chars,
                  total_matches = length (search_content rt content query context_chars)\<rparr>]))"

definition path_warning :: "runtime \<Rightarrow> state \<Rightarrow> pystr \<Rightarrow> (log_level \<times> pystr) list" where
  "path_warning rt st p =
     (case fst (get_file_content rt st p) of
        Inl e \<Rightarrow> [(WARNING, ascii ''Error searching in '' @ p @ ascii '': '' @ exc_str e)]
      | Inr content \<Rightarrow> [])"

text \<open>What one entry of the remote answer contributes to the result of \<open>search_files\<close>:
  a \<open>SearchResult\<close> when it is a file whose path ends with one of the extensions.\<close>

definition accepted :: "pystr list \<Rightarrow> metadata \<Rightarrow> SearchResult list" where
  "accepted extensions m =
     (case m of
        FileMetadata md \<Rightarrow>
          (case path_lower md of
             None \<Rightarrow> []
           | Some fp \<Rightarrow>
               (if list_ex (endswith fp) extensions then
                  [\<lparr>sr_file_path = fp,
                    sr_file_name = name md,
                    match_context = ascii ''Filename match: '' @ name md,
                    file_size = size_bytes md,
                    modified = server_modified md\<rparr>]
                else []))
      | FolderMetadata x \<Rightarrow> []
      | DeletedMetadata x \<Rightarrow> [])"

declare py_find.simps [simp del] search_loop.simps [simp del] str_of_nat.simps [simp del]

section \<open>The search loop\<close>

lemma py_slice_nonneg:
  "0 \<le> i \<Longrightarrow> 0 \<le> j \<Longrightarrow> py_slice xs i j = take (nat j - nat i) (drop (nat i) xs)"
  by (auto simp: py_slice_def slice_index_def Let_def min_def)

text \<open>What \<open>find\<close> returns, read on the list of the occurrences from \<open>start\<close> on.\<close>

lemma py_find_filter:
  "filter (occurs_at s sub) [start..<Suc (length s)] =
     (case py_find s sub start of
        None \<Rightarrow> []
      | Some p \<Rightarrow> p # filter (occurs_at s sub) [Suc p..<Suc (length s)])"
proof (induction s sub start rule: py_find.induct)
  case (1 s sub start)
  show ?case
  proof (cases "length s < start + length sub")
    case True
    then have "\<forall>p \<in> set [start..<Suc (length s)]. \<not> occurs_at s sub p"
      by (auto simp: occurs_at_def)
    then have "filter (occurs_at s sub) [start..<Suc (length s)] = []"
      by (simp only: filter_False)
    with True show ?thesis
      by (subst py_find.simps) simp
  next
    case False
    then have le: "start < Suc (length s)"
      by simp
    have upt: "[start..<Suc (length s)] = start # [Suc start..<Suc (length s)]"
      using le by (rule upt_conv_Cons)
    show ?thesis
    proof (cases "take (length sub) (drop start s) = sub")
      case True
      with False have "occurs_at s sub start"
        by (simp add: occurs_at_def)
      with True False upt show ?thesis
        by (subst py_find.simps) simp
    next
      case no: False
      then have "\<not> occurs_at s sub start"
        by (simp add: occurs_at_def)
      with no False upt "1.IH" show ?thesis
        by (subst py_find.simps) simp
    qed
  qed
qed

lemma search_loop_eq:
  "search_loop content query cc cl ql ms start =
     ms @ map (match_at content query cc) (filter (occurs_at cl ql) [start..<Suc (length cl)])"
proof (induction content query cc cl ql ms start rule: search_loop.induct)
  case (1 content query cc cl ql ms start)
  show ?case
  proof (cases "py_find cl ql start")
    case None
    then show ?thesis
      by (subst search_loop.simps) (simp add: py_find_filter [of cl ql start] del: upt_Suc)
  next
    case (Some pos)
    with "1.IH" [OF Some] show ?thesis
      by (subst search_loop.simps) (simp add: py_find_filter [of cl ql start] del: upt_Suc)
  qed
qed

lemma search_content_eq:
  "search_content rt T Q cc =
     map (match_at T Q cc) (occurrences (str_lower rt T) (str_lower rt Q))"
  by (simp add: search_content_def search_loop_eq occurrences_def del: upt_Suc)

lemma position_match_at: "position (match_at T Q cc p) = p"
  by (simp add: match_at_def Let_def)

lemma search_content_member:
  "m \<in> set (search_content rt T Q cc) \<Longrightarrow> m = match_at T Q cc (position m)"
  by (auto simp: search_content_eq position_match_at)

text \<open>With a query whose lower-cased form is empty the loop stops all the same: \<open>find\<close>
  answers \<open>start\<close> up to the length of the lower-cased text and \<open>-1\<close> after it.\<close>

lemma empty_query_positions:
  "str_lower rt Q = [] \<Longrightarrow>
     map position (search_content rt T Q cc) = [0..<Suc (length (str_lower rt T))]"
proof -
  assume "str_lower rt Q = []"
  then have "occurrences (str_lower rt T) (str_lower rt Q) = [0..<Suc (length (str_lower rt T))]"
    unfolding occurrences_def by (simp add: occurs_at_def del: upt_Suc)
  then show ?thesis
    by (simp add: search_content_eq comp_def position_match_at del: upt_Suc)
qed

text \<open>When lower-casing works character by character, a reported offset is an offset of the
  original text, and the original text there lower-cases to the lower-cased query.\<close>

lemma charwise_lower_positions:
  assumes "\<And>s. str_lower rt s = map f s"
    and "m \<in> set (search_content rt T Q cc)"
  shows "position m + length Q \<le> length T \<and>
         str_lower rt (substring T (position m) (position m + length Q)) = str_lower rt Q"
proof -
  from assms(2) have "position m \<in> set (occurrences (map f T) (map f Q))"
    by (auto simp: search_content_eq assms(1) position_match_at)
  then have "occurs_at (map f T) (map f Q) (position m)"
    by (simp add: occurrences_def del: upt_Suc)
  then show ?thesis
    by (simp add: occurs_at_def assms(1) substring_def take_map drop_map)
qed

lemma example_lower: "str_lower (example_runtime files found) = lower_table"
  by (simp add: example_runtime_def)

text \<open>What the loop records, for every \<open>str.lower\<close>: one match per occurrence of the
  lower-cased query in the lower-cased text, overlapping occurrences included, in ascending
  order and none twice.\<close>

lemma positions_are_lowered_occurrences:
  "map position (search_content rt T Q cc) = occurrences (str_lower rt T) (str_lower rt Q) \<and>
   length (search_content rt T Q cc) = length (occurrences (str_lower rt T) (str_lower rt Q)) \<and>
   distinct (map position (search_content rt T Q cc))"
proof -
  have "map position (search_content rt T Q cc) = occurrences (str_lower rt T) (str_lower rt Q)"
    by (simp add: search_content_eq comp_def position_match_at)
  moreover have "distinct (occurrences (str_lower rt T) (str_lower rt Q))"
    unfolding occurrences_def by (rule distinct_filter) (rule distinct_upt)
  ultimately show ?thesis
    by (simp add: search_content_eq)
qed

text \<open>Searching \<open>aa\<close> in \<open>aaa\<close> gives the offsets 0 and 1; \<open>AT\<close> in
  \<open>The cat sat on the mat\<close> gives 5, 9 and 20.\<close>

lemma overlapping_occurrences_example:
  "map position (search_content (example_runtime [] []) (ascii ''aaa'') (ascii ''aa'') 100)
     = [0, 1] \<and>
   map position (search_content (example_runtime [] []) (ascii ''The cat sat on the mat'')
     (ascii ''AT'') 3) = [5, 9, 20]"
proof -
  have "occurrences (lower_table (ascii ''aaa'')) (lower_table (ascii ''aa'')) = [0, 1]"
    by code_simp
  moreover have "occurrences (lower_table (ascii ''The cat sat on the mat''))
     (lower_table (ascii ''AT'')) = [5, 9, 20]"
    by code_simp
  ultimately show ?thesis
    using positions_are_lowered_occurrences
        [of "example_runtime [] []" "ascii ''aaa''" "ascii ''aa''" 100]
      positions_are_lowered_occurrences
        [of "example_runtime [] []" "ascii ''The cat sat on the mat''" "ascii ''AT''" 3]
    by (simp add: example_lower)
qed

text \<open>When lower-casing works character by character, these are the case-insensitive
  occurrences of the query in the text itself.\<close>

lemma charwise_lower_occurrences:
  assumes "\<And>s. str_lower rt s = map f s"
  shows "map position (search_content rt T Q cc) = ci_occurrences (str_lower rt) T Q"
proof -
  have "occurs_at (map f T) (map f Q)
          = (\<lambda>p. p + length Q \<le> length T \<and> map f (take (length Q) (drop p T)) = map f Q)"
    by (simp add: fun_eq_iff occurs_at_def take_map drop_map)
  then have "occurrences (map f T) (map f Q) = ci_occurrences (map f) T Q"
    unfolding occurrences_def ci_occurrences_def by (simp del: upt_Suc)
  moreover have "str_lower rt = map f"
    using assms by (rule ext)
  ultimately show ?thesis
    by (simp add: search_content_eq comp_def position_match_at)
qed

text \<open>
  \<^bold>\<open>C1.\<close> The matches are not the case-insensitive occurrences of \<open>Q\<close> in \<open>T\<close> for every text
  and non-empty query, because \<open>str.lower\<close> can lengthen a text and the search runs on the
  lower-cased strings. In the one-character text U+0130 the two-character query
  U+0069 U+0307, longer than the text, is found once, at offset 0; and the query U+0307 is
  found at offset 1, the end of the text. Neither query occurs anywhere in the text, in any
  case.
\<close>

theorem match_without_occurrence:
  "map position (search_content (example_runtime [] []) [304] [105, 775] 0) = [0] \<and>
   length [304 :: nat] < length [105, 775 :: nat] \<and>
   ci_occurrences (str_lower (example_runtime [] [])) [304] [105, 775] = [] \<and>
   map position (search_content (example_runtime [] []) [304] [775] 0) = [1] \<and>
   ci_occurrences (str_lower (example_runtime [] [])) [304] [775] = []"
proof -
  have occ: "occurrences (lower_table [304]) (lower_table [105, 775]) = [0]"
    by code_simp
  have occ': "occurrences (lower_table [304]) (lower_table [775]) = [1]"
    by code_simp
  have a: "map position (search_content (example_runtime [] []) [304] [105, 775] 0) = [0]"
    unfolding search_content_eq example_lower occ list.map position_match_at by (rule refl)
  have b: "map position (search_content (example_runtime [] []) [304] [775] 0) = [1]"
    unfolding search_content_eq example_lower occ' list.map position_match_at by (rule refl)
  have c: "ci_occurrences lower_table [304] [105, 775] = []"
    by code_simp
  have d: "ci_occurrences lower_table [304] [775] = []"
    by code_simp
  have e: "length [304 :: nat] < length [105, 775 :: nat]"
    by simp
  from a e c b d show ?thesis
    unfolding example_lower by (intro conjI)
qed

text \<open>
  \<^bold>\<open>C2.\<close> The line number of a recorded match is one more than the number of newline
  characters in the original text before the recorded offset.
\<close>

theorem line_number_counts_newlines:
  "m \<in> set (search_content rt T Q cc) \<Longrightarrow>
     line_number m = 1 + count_list (take (position m) T) newline"
proof -
  assume "m \<in> set (search_content rt T Q cc)"
  then have "m = match_at T Q cc (position m)"
    by (rule search_content_member)
  then have "line_number m = line_number (match_at T Q cc (position m))"
    by simp
  then show ?thesis
    by (simp add: match_at_def Let_def py_slice_nonneg)
qed

theorem line_number_counts_newlines_witness:
  "\<lparr>position = 3, context_window = ascii ''b'', line_number = 2\<rparr>
      \<in> set (search_content (example_runtime [] []) (ascii ''xy'' @ [newline] @ ascii ''b'')
               (ascii ''B'') 0) \<and>
   line_number \<lparr>position = 3, context_window = ascii ''b'', line_number = 2\<rparr>
     = 1 + count_list (take (position \<lparr>position = 3, context_window = ascii ''b'',
                                         line_number = 2\<rparr>)
                            (ascii ''xy'' @ [newline] @ ascii ''b'')) newline"
proof -
  let ?m = "\<lparr>position = 3, context_window = ascii ''b'', line_number = 2\<rparr>"
  let ?T = "ascii ''xy'' @ [newline] @ ascii ''b''"
  have occ: "occurrences (lower_table ?T) (lower_table (ascii ''B'')) = [3]"
    by code_simp
  have at: "match_at ?T (ascii ''B'') 0 3 = ?m"
    by code_simp
  have "search_content (example_runtime [] []) ?T (ascii ''B'') 0 = [?m]"
    unfolding search_content_eq example_lower occ list.map at by (rule refl)
  then have mem: "?m \<in> set (search_content (example_runtime [] []) ?T (ascii ''B'') 0)"
    by simp
  from mem line_number_counts_newlines [OF mem] show ?thesis
    by (rule conjI)
qed

text \<open>The window formula: for a radius \<open>context_chars \<ge> 0\<close>, the context of a match recorded
  at offset \<open>P\<close> is the slice of the original text from \<open>max(0, P - context_chars)\<close> to
  \<open>min(len(T), P + len(Q) + context_chars)\<close>, empty when the first bound exceeds the second;
  with radius 0 it is the slice \<open>T[P : P + len(Q)]\<close>.\<close>

lemma context_window_formula:
  "m \<in> set (search_content rt T Q cc) \<Longrightarrow> 0 \<le> cc \<Longrightarrow>
     context_window m =
       substring T (nat (max 0 (int (position m) - cc)))
                   (nat (min (int (length T)) (int (position m) + int (length Q) + cc))) \<and>
     (\<exists>pre post. T = pre @ context_window m @ post) \<and>
     (cc = 0 \<longrightarrow> context_window m = substring T (position m) (position m + length Q))"
proof -
  assume mem: "m \<in> set (search_content rt T Q cc)" and cc: "0 \<le> cc"
  let ?lo = "nat (max 0 (int (position m) - cc))"
  let ?hi = "nat (min (int (length T)) (int (position m) + int (length Q) + cc))"
  from mem have "m = match_at T Q cc (position m)"
    by (rule search_content_member)
  then have "context_window m = context_window (match_at T Q cc (position m))"
    by simp
  with cc have win: "context_window m = substring T ?lo ?hi"
    by (simp add: match_at_def Let_def py_slice_nonneg substring_def)
  have "T = take ?lo T @ substring T ?lo ?hi @ drop (?hi - ?lo) (drop ?lo T)"
    unfolding substring_def by (simp only: append_take_drop_id)
  with win have "\<exists>pre post. T = pre @ context_window m @ post"
    by metis
  moreover have "cc = 0 \<longrightarrow> context_window m = substring T (position m) (position m + length Q)"
  proof
    assume "cc = 0"
    with win show "context_window m = substring T (position m) (position m + length Q)"
      by (auto simp: substring_def min_def nat_add_distrib)
  qed
  ultimately show ?thesis
    using win by simp
qed

lemma context_window_formula_example:
  "\<lparr>position = 1, context_window = ascii ''abc'', line_number = 1\<rparr>
      \<in> set (search_content (example_runtime [] []) (ascii ''abcd'') (ascii ''B'') 1) \<and>
   (0::int) \<le> 1 \<and>
   context_window \<lparr>position = 1, context_window = ascii ''abc'', line_number = 1\<rparr>
     = substring (ascii ''abcd'') 0 3 \<and>
   \<lparr>position = 1, context_window = ascii ''b'', line_number = 1\<rparr>
      \<in> set (search_content (example_runtime [] []) (ascii ''abcd'') (ascii ''B'') 0) \<and>
   context_window \<lparr>position = 1, context_window = ascii ''b'', line_number = 1\<rparr>
     = substring (ascii ''abcd'') 1 2"
proof -
  let ?m = "\<lparr>position = 1, context_window = ascii ''abc'', line_number = 1\<rparr>"
  let ?n = "\<lparr>position = 1, context_window = ascii ''b'', line_number = 1\<rparr>"
  have occ: "occurrences (lower_table (ascii ''abcd'')) (lower_table (ascii ''B'')) = [1]"
    by code_simp
  have at: "match_at (ascii ''abcd'') (ascii ''B'') 1 1 = ?m"
    by code_simp
  have at0: "match_at (ascii ''abcd'') (ascii ''B'') 0 1 = ?n"
    by code_simp
  have "search_content (example_runtime [] []) (ascii ''abcd'') (ascii ''B'') 1 = [?m]"
    unfolding search_content_eq example_lower occ list.map at by (rule refl)
  then have mem: "?m \<in> set (search_content (example_runtime [] []) (ascii ''abcd'') (ascii ''B'') 1)"
    by simp
  have "search_content (example_runtime [] []) (ascii ''abcd'') (ascii ''B'') 0 = [?n]"
    unfolding search_content_eq example_lower occ list.map at0 by (rule refl)
  then have mem0: "?n \<in> set (search_content (example_runtime [] []) (ascii ''abcd'') (ascii ''B'') 0)"
    by simp
  have le: "(0::int) \<le> 1" and le0: "(0::int) \<le> 0"
    by simp_all
  have len: "length (ascii ''abcd'') = 4" "length (ascii ''B'') = 1"
    by (simp_all add: ascii_def)
  from context_window_formula [OF mem le]
  have w1: "context_window ?m = substring (ascii ''abcd'') 0 3"
    by (simp add: len)
  from context_window_formula [OF mem0 le0]
  have w0: "context_window ?n = substring (ascii ''abcd'') 1 2"
    by (simp add: len)
  from mem le w1 mem0 w0 show ?thesis
    by (intro conjI)
qed

text \<open>
  \<^bold>\<open>C3.\<close> The recorded offset is an offset of the lower-cased text, so the window cut from
  the original text is not always around the match, nor within the text. With radius 0, for
  the query \<open>b\<close> in the text U+0130 \<open>ba\<close> the context is \<open>a\<close>, not the matched \<open>b\<close>; and
  for the query \<open>a\<close> in the three-character text U+0130 U+0130 \<open>a\<close> the match is recorded at
  offset 4, the window starts at 4, beyond the end of the text, and the context is empty.
\<close>

theorem context_misses_the_match:
  "search_content (example_runtime [] []) [304, 98, 97] (ascii ''b'') 0
     = [\<lparr>position = 2, context_window = ascii ''a'', line_number = 1\<rparr>] \<and>
   search_content (example_runtime [] []) [304, 304, 97] (ascii ''a'') 0
     = [\<lparr>position = 4, context_window = [], line_number = 1\<rparr>] \<and>
   length [304, 304, 97 :: nat] < 4"
proof -
  have occ: "occurrences (lower_table [304, 98, 97]) (lower_table (ascii ''b'')) = [2]"
    by code_simp
  have at: "match_at [304, 98, 97] (ascii ''b'') 0 2
              = \<lparr>position = 2, context_window = ascii ''a'', line_number = 1\<rparr>"
    by code_simp
  have occ': "occurrences (lower_table [304, 304, 97]) (lower_table (ascii ''a'')) = [4]"
    by code_simp
  have at': "match_at [304, 304, 97] (ascii ''a'') 0 4
              = \<lparr>position = 4, context_window = [], line_number = 1\<rparr>"
    by code_simp
  have a: "search_content (example_runtime [] []) [304, 98, 97] (ascii ''b'') 0
     = [\<lparr>position = 2, context_window = ascii ''a'', line_number = 1\<rparr>]"
    unfolding search_content_eq example_lower occ list.map at by (rule refl)
  have b: "search_content (example_runtime [] []) [304, 304, 97] (ascii ''a'') 0
     = [\<lparr>position = 4, context_window = [], line_number = 1\<rparr>]"
    unfolding search_content_eq example_lower occ' list.map at' by (rule refl)
  have c: "length [304, 304, 97 :: nat] < 4"
    by simp
  from a b c show ?thesis
    by (intro conjI)
qed

text \<open>
  \<^bold>\<open>C4.\<close> The offsets are those of the lower-cased text, and \<open>str.lower\<close> can lengthen a
  text. For the two-character text U+0130 \<open>a\<close> and the query \<open>a\<close>, the lower-cased text
  has three characters and the match is recorded at offset 2, whereas \<open>a\<close> stands at
  offset 1 of the original, whose length is 2; the context cut from the original at offset 2
  is empty.
\<close>

theorem position_is_offset_in_lowered_text:
  "str_lower (example_runtime [] []) [304, 97] = [105, 775, 97] \<and>
   search_content (example_runtime [] []) [304, 97] (ascii ''a'') 0
     = [\<lparr>position = 2, context_window = [], line_number = 1\<rparr>] \<and>
   occurrences [304, 97] (ascii ''a'') = [1] \<and>
   length [304, 97 :: nat] = 2"
proof -
  have low: "lower_table [304, 97] = [105, 775, 97]"
    by code_simp
  have occ: "occurrences (lower_table [304, 97]) (lower_table (ascii ''a'')) = [2]"
    by code_simp
  have at: "match_at [304, 97] (ascii ''a'') 0 2
              = \<lparr>position = 2, context_window = [], line_number = 1\<rparr>"
    by code_simp
  have orig: "occurrences [304, 97] (ascii ''a'') = [1]"
    by code_simp
  have "search_content (example_runtime [] []) [304, 97] (ascii ''a'') 0
     = [\<lparr>position = 2, context_window = [], line_number = 1\<rparr>]"
    unfolding search_content_eq example_lower occ list.map at by (rule refl)
  moreover have "str_lower (example_runtime [] []) [304, 97] = [105, 775, 97]"
    unfolding example_lower by (rule low)
  moreover have "length [304, 97 :: nat] = 2"
    by simp
  ultimately show ?thesis
    using orig by (intro conjI)
qed

text \<open>
  \<^bold>\<open>C10.\<close> With the empty query the loop stops, but the matches are counted on the
  lower-cased text: for the one-character text U+0130 three matches are recorded, at the
  offsets 0, 1 and 2, not \<open>len(T) + 1 = 2\<close>.
\<close>

theorem empty_query_counts_lowered_length:
  "map position (search_content (example_runtime [] []) [304] [] 100) = [0, 1, 2] \<and>
   length [304 :: nat] + 1 = 2"
proof -
  have occ: "occurrences (lower_table [304]) (lower_table []) = [0, 1, 2]"
    by code_simp
  have "map position (search_content (example_runtime [] []) [304] [] 100) = [0, 1, 2]"
    unfolding search_content_eq example_lower occ list.map position_match_at by (rule refl)
  then show ?thesis
    by simp
qed

section \<open>The loop over the paths\<close>

lemma get_file_content_fst:
  "dropbox_client st' = dropbox_client st \<Longrightarrow>
     fst (get_file_content rt st' p) = fst (get_file_content rt st p)"
  by (cases "dropbox_client st") (simp_all add: get_file_content_def)

lemma get_file_content_snd:
  "dropbox_client (snd (get_file_content rt st p)) = dropbox_client st \<and>
   log (snd (get_file_content rt st p)) = log st"
  by (cases "dropbox_client st") (simp_all add: get_file_content_def)

lemma path_entry_cong:
  assumes "dropbox_client st' = dropbox_client st"
  shows "path_entry rt st' q cc p = path_entry rt st q cc p"
  unfolding path_entry_def get_file_content_fst [OF assms] by (rule refl)

lemma path_warning_cong:
  assumes "dropbox_client st' = dropbox_client st"
  shows "path_warning rt st' p = path_warning rt st p"
  unfolding path_warning_def get_file_content_fst [OF assms] by (rule refl)

lemma search_paths_eq:
  "fst (search_paths rt q cc ps results st) = results @ concat (map (path_entry rt st q cc) ps) \<and>
   log (snd (search_paths rt q cc ps results st)) = log st @ concat (map (path_warning rt st) ps) \<and>
   dropbox_client (snd (search_paths rt q cc ps results st)) = dropbox_client st"
proof (induction ps arbitrary: results st)
  case Nil
  show ?case by simp
next
  case (Cons p ps)
  obtain r st1 where g: "get_file_content rt st p = (r, st1)"
    by (cases "get_file_content rt st p")
  from get_file_content_snd [of rt st p] g
  have c1: "dropbox_client st1 = dropbox_client st" and l1: "log st1 = log st"
    by simp_all
  show ?case
  proof (cases r)
    case (Inl e)
    define st2 where "st2 = st1\<lparr>log := log st1 @
               [(WARNING, ascii ''Error searching in '' @ p @ ascii '': '' @ exc_str e)]\<rparr>"
    have c: "dropbox_client st2 = dropbox_client st"
      and l: "log st2 = log st @
               [(WARNING, ascii ''Error searching in '' @ p @ ascii '': '' @ exc_str e)]"
      using c1 l1 by (simp_all add: st2_def)
    have eq: "search_paths rt q cc (p # ps) results st = search_paths rt q cc ps results st2"
      using g Inl by (simp add: st2_def)
    have pe: "path_entry rt st q cc p = []"
      and pw: "path_warning rt st p
             = [(WARNING, ascii ''Error searching in '' @ p @ ascii '': '' @ exc_str e)]"
      using g Inl by (simp_all add: path_entry_def path_warning_def)
    have same: "path_entry rt st2 q cc = path_entry rt st q cc"
      "path_warning rt st2 = path_warning rt st"
      by (rule ext, rule path_entry_cong [OF c], rule ext, rule path_warning_cong [OF c])
    from Cons.IH [of results st2] show ?thesis
      unfolding eq by (simp add: same pe pw c l)
  next
    case (Inr content)
    define rs where "rs = (if search_content rt content q cc \<noteq> [] then
                 results @ [\<lparr>file_path = p, file_name = last (split_on (of_char CHR ''/'') p),
                             matches = search_content rt content q cc,
                             total_matches = length (search_content rt content q cc)\<rparr>]
               else results)"
    have eq: "search_paths rt q cc (p # ps) results st = search_paths rt q cc ps rs st1"
      using g Inr by (simp add: Let_def rs_def)
    have pe: "rs = results @ path_entry rt st q cc p" and pw: "path_warning rt st p = []"
      using g Inr by (simp_all add: path_entry_def path_warning_def rs_def)
    have same: "path_entry rt st1 q cc = path_entry rt st q cc"
      "path_warning rt st1 = path_warning rt st"
      by (rule ext, rule path_entry_cong [OF c1], rule ext, rule path_warning_cong [OF c1])
    from Cons.IH [of rs st1] show ?thesis
      unfolding eq by (simp add: same pe pw c1 l1)
  qed
qed

lemma initialize_dropbox_client_Some:
  "initialize_dropbox_client rt st = (Inr u, st1) \<Longrightarrow> \<exists>c. dropbox_client st1 = Some c"
proof (cases "getenv_token rt")
  case None
  assume "initialize_dropbox_client rt st = (Inr u, st1)"
  with None show ?thesis
    by (simp add: initialize_dropbox_client_def)
next
  case (Some tok)
  assume a: "initialize_dropbox_client rt st = (Inr u, st1)"
  show ?thesis
  proof (cases "Dropbox rt tok")
    case (Inl e)
    with a Some show ?thesis
      by (cases e) (simp_all add: initialize_dropbox_client_def split: if_splits)
  next
    case (Inr c)
    show ?thesis
    proof (cases "users_get_current_account c")
      case (Inl e)
      with a Some Inr show ?thesis
        by (cases e) (simp_all add: initialize_dropbox_client_def Let_def split: if_splits)
    next
      case inr: (Inr v)
      with a Some Inr show ?thesis
        by (auto simp: initialize_dropbox_client_def Let_def split: if_splits)
    qed
  qed
qed

lemma ensure_client_Some:
  "ensure_client rt st = (Inr u, st1) \<Longrightarrow> \<exists>c. dropbox_client st1 = Some c"
  by (cases "dropbox_client st") (auto simp: ensure_client_def dest: initialize_dropbox_client_Some)

lemma search_file_content_eq:
  "ensure_client rt st = (Inr u, st1) \<Longrightarrow>
     fst (search_file_content rt st paths q cc) = Inr (concat (map (path_entry rt st1 q cc) paths)) \<and>
     log (snd (search_file_content rt st paths q cc))
       = log st1 @ concat (map (path_warning rt st1) paths)"
  using search_paths_eq [of rt q cc paths "[]" st1]
  by (auto simp: search_file_content_def split: prod.splits)



text \<open>Starting without a handle, the first tool call builds it, tests the connection and
  logs the success.\<close>

lemma example_initialise:
  "ensure_client (example_runtime files found) initial_state =
     (Inr (), \<lparr>dropbox_client = Some (example_client files found),
               log = [(INFO, ascii ''Dropbox client initialized successfully'')],
               remote_calls = [GetCurrentAccount]\<rparr>)"
  by (simp add: ensure_client_def initialize_dropbox_client_def example_runtime_def
        initial_state_def example_client_def ascii_def)


lemma get_file_content_ready:
  "fst (get_file_content rt (ready_state c) p) =
     (case download_and_extract rt c p of
        Inl (ApiError m) \<Rightarrow> Inl (ValueError (ascii ''Dropbox API error: '' @ m))
      | Inl e \<Rightarrow> Inl (ValueError (ascii ''Error reading file: '' @ exc_str e))
      | Inr text \<Rightarrow> Inr text)"
  by (simp add: get_file_content_def ready_state_def)

lemma ensure_client_ready: "ensure_client rt (ready_state c) = (Inr (), ready_state c)"
  by (simp add: ensure_client_def ready_state_def)

lemma example_path_a:
  "path_entry (example_runtime example_files []) (ready_state (example_client example_files []))
     (ascii ''A'') 1 (ascii ''/docs/a.txt'') = [example_entry_a]"
proof -
  have dl: "download_and_extract (example_runtime example_files [])
              (example_client example_files []) (ascii ''/docs/a.txt'') = Inr (ascii ''xaay'')"
    by code_simp
  have occ: "occurrences (lower_table (ascii ''xaay'')) (lower_table (ascii ''A'')) = [1, 2]"
    by code_simp
  have at1: "match_at (ascii ''xaay'') (ascii ''A'') 1 1
               = \<lparr>position = 1, context_window = ascii ''xaa'', line_number = 1\<rparr>"
    by code_simp
  have at2: "match_at (ascii ''xaay'') (ascii ''A'') 1 2
               = \<lparr>position = 2, context_window = ascii ''aay'', line_number = 1\<rparr>"
    by code_simp
  have sc: "search_content (example_runtime example_files []) (ascii ''xaay'') (ascii ''A'') 1
      = [\<lparr>position = 1, context_window = ascii ''xaa'', line_number = 1\<rparr>,
         \<lparr>position = 2, context_window = ascii ''aay'', line_number = 1\<rparr>]"
    unfolding search_content_eq example_lower occ list.map at1 at2 by (rule refl)
  have fn: "last (split_on (of_char CHR ''/'') (ascii ''/docs/a.txt'')) = ascii ''a.txt''"
    by code_simp
  show ?thesis
    unfolding path_entry_def get_file_content_ready dl sum.case sc fn
    by (simp add: example_entry_a_def example_entry_c_def)
qed

lemma example_path_b:
  "path_entry (example_runtime example_files []) (ready_state (example_client example_files []))
     (ascii ''A'') 1 (ascii ''/b.txt'') = []"
proof -
  have dl: "download_and_extract (example_runtime example_files [])
              (example_client example_files []) (ascii ''/b.txt'') = Inr (ascii ''zzz'')"
    by code_simp
  have occ: "occurrences (lower_table (ascii ''zzz'')) (lower_table (ascii ''A'')) = []"
    by code_simp
  have sc: "search_content (example_runtime example_files []) (ascii ''zzz'') (ascii ''A'') 1 = []"
    unfolding search_content_eq example_lower occ list.map by (rule refl)
  show ?thesis
    unfolding path_entry_def get_file_content_ready dl sum.case sc by simp
qed

lemma example_path_c:
  "path_entry (example_runtime example_files []) (ready_state (example_client example_files []))
     (ascii ''A'') 1 (ascii ''/c.md'') = [example_entry_c]"
proof -
  have dl: "download_and_extract (example_runtime example_files [])
              (example_client example_files []) (ascii ''/c.md'') = Inr (ascii ''Aha'')"
    by code_simp
  have occ: "occurrences (lower_table (ascii ''Aha'')) (lower_table (ascii ''A'')) = [0, 2]"
    by code_simp
  have at1: "match_at (ascii ''Aha'') (ascii ''A'') 1 0
               = \<lparr>position = 0, context_window = ascii ''Ah'', line_number = 1\<rparr>"
    by code_simp
  have at2: "match_at (ascii ''Aha'') (ascii ''A'') 1 2
               = \<lparr>position = 2, context_window = ascii ''ha'', line_number = 1\<rparr>"
    by code_simp
  have sc: "search_content (example_runtime example_files []) (ascii ''Aha'') (ascii ''A'') 1
      = [\<lparr>position = 0, context_window = ascii ''Ah'', line_number = 1\<rparr>,
         \<lparr>position = 2, context_window = ascii ''ha'', line_number = 1\<rparr>]"
    unfolding search_content_eq example_lower occ list.map at1 at2 by (rule refl)
  have fn: "last (split_on (of_char CHR ''/'') (ascii ''/c.md'')) = ascii ''c.md''"
    by code_simp
  show ?thesis
    unfolding path_entry_def get_file_content_ready dl sum.case sc fn
    by (simp add: example_entry_a_def example_entry_c_def)
qed

lemma example_missing:
  "fst (get_file_content (example_runtime example_files [])
         (ready_state (example_client example_files [])) (ascii ''/missing.txt''))
     = Inl (ValueError (ascii ''Dropbox API error: path/not_found''))"
proof -
  have dl: "download_and_extract (example_runtime example_files [])
              (example_client example_files []) (ascii ''/missing.txt'')
              = Inl (ApiError (ascii ''path/not_found''))"
    by code_simp
  show ?thesis
    unfolding get_file_content_ready dl by (simp add: ascii_def)
qed





text \<open>
  \<^bold>\<open>C8.\<close> When \<open>get_file_content\<close> raises for one path of the list, the call still returns:
  its result is what the other paths contribute, in order, the same as if the path were not
  in the list, and a warning naming the path and the exception is logged.
\<close>

theorem failing_path_is_skipped:
  "ensure_client rt st = (Inr (), st1) \<Longrightarrow> fst (get_file_content rt st1 p) = Inl e \<Longrightarrow>
     fst (search_file_content rt st (ps @ p # qs) q cc)
       = Inr (concat (map (path_entry rt st1 q cc) ps) @ concat (map (path_entry rt st1 q cc) qs)) \<and>
     fst (search_file_content rt st (ps @ p # qs) q cc)
       = fst (search_file_content rt st (ps @ qs) q cc) \<and>
     (WARNING, ascii ''Error searching in '' @ p @ ascii '': '' @ exc_str e)
       \<in> set (log (snd (search_file_content rt st (ps @ p # qs) q cc)))"
proof -
  assume e: "ensure_client rt st = (Inr (), st1)" and g: "fst (get_file_content rt st1 p) = Inl e"
  from g have pe: "path_entry rt st1 q cc p = []"
    and pw: "path_warning rt st1 p
               = [(WARNING, ascii ''Error searching in '' @ p @ ascii '': '' @ exc_str e)]"
    by (simp_all add: path_entry_def path_warning_def)
  from search_file_content_eq [OF e, of "ps @ p # qs" q cc] pe pw
  have "fst (search_file_content rt st (ps @ p # qs) q cc)
          = Inr (concat (map (path_entry rt st1 q cc) ps) @ concat (map (path_entry rt st1 q cc) qs))"
    and "(WARNING, ascii ''Error searching in '' @ p @ ascii '': '' @ exc_str e)
           \<in> set (log (snd (search_file_content rt st (ps @ p # qs) q cc)))"
    by simp_all
  moreover from search_file_content_eq [OF e, of "ps @ qs" q cc]
  have "fst (search_file_content rt st (ps @ qs) q cc)
          = Inr (concat (map (path_entry rt st1 q cc) ps) @ concat (map (path_entry rt st1 q cc) qs))"
    by simp
  ultimately show ?thesis
    by simp
qed

theorem failing_path_is_skipped_witness:
  "ensure_client (example_runtime example_files [])
     (ready_state (example_client example_files []))
     = (Inr (), ready_state (example_client example_files [])) \<and>
   fst (get_file_content (example_runtime example_files [])
          (ready_state (example_client example_files [])) (ascii ''/missing.txt''))
     = Inl (ValueError (ascii ''Dropbox API error: path/not_found'')) \<and>
   fst (search_file_content (example_runtime example_files [])
          (ready_state (example_client example_files []))
          ([ascii ''/docs/a.txt''] @ ascii ''/missing.txt'' # [ascii ''/b.txt'', ascii ''/c.md''])
          (ascii ''A'') 1) = Inr [example_entry_a, example_entry_c] \<and>
   (WARNING, ascii ''Error searching in '' @ ascii ''/missing.txt'' @ ascii '': '' @
             exc_str (ValueError (ascii ''Dropbox API error: path/not_found'')))
     \<in> set (log (snd (search_file_content (example_runtime example_files [])
          (ready_state (example_client example_files []))
          ([ascii ''/docs/a.txt''] @ ascii ''/missing.txt'' # [ascii ''/b.txt'', ascii ''/c.md''])
          (ascii ''A'') 1)))"
proof -
  note skipped = failing_path_is_skipped [OF ensure_client_ready example_missing,
      of "[ascii ''/docs/a.txt'']" "[ascii ''/b.txt'', ascii ''/c.md'']" "ascii ''A''" 1]
  from skipped have "fst (search_file_content (example_runtime example_files [])
          (ready_state (example_client example_files []))
          ([ascii ''/docs/a.txt''] @ ascii ''/missing.txt'' # [ascii ''/b.txt'', ascii ''/c.md''])
          (ascii ''A'') 1) = Inr [example_entry_a, example_entry_c]"
    by (simp add: example_path_a example_path_b example_path_c)
  with skipped ensure_client_ready example_missing show ?thesis
    by blast
qed

section \<open>\<open>read_file\<close>\<close>

text \<open>\<open>str(n)\<close> is the decimal numeral of \<open>n\<close>.\<close>

lemma str_of_nat_decimal:
  "nat_of_digits (str_of_nat n) = n \<and> (\<forall>d \<in> set (str_of_nat n). 48 \<le> d \<and> d \<le> 57)"
proof (induction n rule: str_of_nat.induct)
  case (1 n)
  show ?case
  proof (cases "n < 10")
    case True
    then show ?thesis
      by (subst (1 2) str_of_nat.simps) (simp add: nat_of_digits_def)
  next
    case False
    with "1.IH" have ih: "nat_of_digits (str_of_nat (n div 10)) = n div 10"
      and digits: "\<forall>d \<in> set (str_of_nat (n div 10)). 48 \<le> d \<and> d \<le> 57"
      by simp_all
    have last_digit: "n mod 10 \<le> 9"
      by simp
    from False have unfold: "str_of_nat n = str_of_nat (n div 10) @ [48 + n mod 10]"
      by (subst str_of_nat.simps) simp
    from ih have "nat_of_digits (str_of_nat n) = 10 * (n div 10) + n mod 10"
      unfolding unfold nat_of_digits_def by simp
    then have "nat_of_digits (str_of_nat n) = n"
      by simp
    moreover from digits last_digit have "\<forall>d \<in> set (str_of_nat n). 48 \<le> d \<and> d \<le> 57"
      unfolding unfold by auto
    ultimately show ?thesis
      by simp
  qed
qed

text \<open>
  \<^bold>\<open>C6.\<close> When the handle is available and the content was extracted, \<open>read_file\<close> returns
  the first \<open>max_length\<close> characters followed by the note with the total number of
  characters if \<open>max_length > 0\<close> and the content is longer than \<open>max_length\<close>, and the
  content unchanged otherwise. The part kept has exactly \<open>max_length\<close> characters, and the
  digits in the note are the decimal numeral of \<open>len(content)\<close>.
\<close>

theorem read_file_truncates:
  "ensure_client rt st = (Inr (), st1) \<Longrightarrow> get_file_content rt st1 p = (Inr content, st2) \<Longrightarrow>
     read_file rt st p max_length =
       (Inr (if 0 < max_length \<and> max_length < int (length content) then
               take (nat max_length) content @ [newline, newline] @
               ascii ''[Content truncated - file has '' @ str_of_nat (length content) @
               ascii '' total characters]''
             else content), st2) \<and>
     (0 < max_length \<and> max_length < int (length content) \<longrightarrow>
        int (length (take (nat max_length) content)) = max_length \<and>
        nat_of_digits (str_of_nat (length content)) = length content)"
proof -
  assume e: "ensure_client rt st = (Inr (), st1)"
    and g: "get_file_content rt st1 p = (Inr content, st2)"
  have slice: "0 < max_length \<Longrightarrow> py_slice content 0 max_length = take (nat max_length) content"
    by (simp add: py_slice_nonneg)
  from e g slice have "read_file rt st p max_length =
       (Inr (if 0 < max_length \<and> max_length < int (length content) then
               take (nat max_length) content @ [newline, newline] @
               ascii ''[Content truncated - file has '' @ str_of_nat (length content) @
               ascii '' total characters]''
             else content), st2)"
    by (simp add: read_file_def)
  moreover have "0 < max_length \<and> max_length < int (length content) \<longrightarrow>
        int (length (take (nat max_length) content)) = max_length"
    by auto
  ultimately show ?thesis
    using str_of_nat_decimal [of "length content"] by blast
qed

text \<open>With \<open>max_length = 10\<close> a text of 50 characters comes back as its first 10 characters
  and a note that mentions 50; with \<open>max_length = 0\<close> it comes back whole.\<close>

lemma example_long:
  "fst (get_file_content (example_runtime example_files []) (ready_state (example_client example_files []))
         (ascii ''/long.txt''))
     = Inr (ascii ''01234567890123456789012345678901234567890123456789'')"
proof -
  have dl: "download_and_extract (example_runtime example_files [])
              (example_client example_files []) (ascii ''/long.txt'')
              = Inr (ascii ''01234567890123456789012345678901234567890123456789'')"
    by code_simp
  show ?thesis
    unfolding get_file_content_ready dl by simp
qed

theorem read_file_truncates_witness:
  "(0::int) < 10 \<and>
   10 < int (length (ascii ''01234567890123456789012345678901234567890123456789'')) \<and>
   nat_of_digits (str_of_nat (length
       (ascii ''01234567890123456789012345678901234567890123456789'')))
     = length (ascii ''01234567890123456789012345678901234567890123456789'') \<and>
   fst (read_file (example_runtime example_files []) (ready_state (example_client example_files []))
         (ascii ''/long.txt'') 10)
     = Inr (ascii ''0123456789'' @ [newline, newline] @ ascii ''[Content truncated - file has '' @
            ascii ''50'' @ ascii '' total characters]'') \<and>
   fst (read_file (example_runtime example_files []) (ready_state (example_client example_files []))
         (ascii ''/long.txt'') 0)
     = Inr (ascii ''01234567890123456789012345678901234567890123456789'')"
proof -
  let ?rt = "example_runtime example_files []"
  let ?st = "ready_state (example_client example_files [])"
  let ?c = "ascii ''01234567890123456789012345678901234567890123456789''"
  have g: "get_file_content ?rt ?st (ascii ''/long.txt'')
             = (Inr ?c, snd (get_file_content ?rt ?st (ascii ''/long.txt'')))"
    using example_long by (simp add: prod_eq_iff)
  have len: "int (length ?c) = 50"
    by (simp add: ascii_def)
  have sn: "str_of_nat (length ?c) = ascii ''50''"
    by code_simp
  have tk: "take (nat 10) ?c = ascii ''0123456789''"
    by code_simp
  have "fst (read_file ?rt ?st (ascii ''/long.txt'') 10)
     = Inr (ascii ''0123456789'' @ [newline, newline] @ ascii ''[Content truncated - file has '' @
            ascii ''50'' @ ascii '' total characters]'')"
    unfolding read_file_truncates [OF ensure_client_ready g, THEN conjunct1] len sn tk by simp
  moreover have "fst (read_file ?rt ?st (ascii ''/long.txt'') 0) = Inr ?c"
    unfolding read_file_truncates [OF ensure_client_ready g, THEN conjunct1] by simp
  moreover have pre: "(0::int) < 10 \<and> 10 < int (length ?c)"
    unfolding len by simp
  moreover from read_file_truncates [OF ensure_client_ready g, THEN conjunct2, of 10] pre
  have "nat_of_digits (str_of_nat (length ?c)) = length ?c"
    by blast
  ultimately show ?thesis
    by blast
qed

section \<open>\<open>search_files\<close>\<close>

text \<open>The loop of \<open>search_files\<close>, when it does not raise, appends the accepted entries in
  order until \<open>max_results\<close> results are there.\<close>

lemma filter_matches_eq:
  "filter_matches exts mr found results = Inr rs \<Longrightarrow>
     rs = results @ take (nat mr - length results) (concat (map (accepted exts) found))"
proof (induction found arbitrary: results)
  case Nil
  then show ?case by simp
next
  case (Cons m found)
  show ?case
  proof (cases "int (length results) \<ge> mr")
    case True
    with Cons.prems show ?thesis by simp
  next
    case False
    then have room: "length results < nat mr"
      by simp
    show ?thesis
    proof (cases "accepted exts m")
      case Nil
      with Cons.prems False have "filter_matches exts mr found results = Inr rs"
        by (auto simp: accepted_def split: metadata.splits option.splits if_splits)
      from Cons.IH [OF this] Nil show ?thesis
        by simp
    next
      case (Cons r rest)
      then have one: "accepted exts m = [r]"
        by (auto simp: accepted_def split: metadata.splits option.splits if_splits)
      with Cons.prems False have "filter_matches exts mr found (results @ [r]) = Inr rs"
        by (auto simp: accepted_def split: metadata.splits option.splits if_splits)
      from Cons.IH [OF this] one room show ?thesis
        by (simp add: take_Cons')
    qed
  qed
qed

lemma accepted_docx:
  "r \<in> set (accepted [ascii ''.docx'', ascii ''.doc''] m) \<Longrightarrow>
     endswith (sr_file_path r) (ascii ''.docx'') \<or> endswith (sr_file_path r) (ascii ''.doc'')"
  by (auto simp: accepted_def split: metadata.splits option.splits if_splits)

lemma parse_file_types_docx:
  "str_lower rt ft = ascii ''docx'' \<Longrightarrow> parse_file_types rt ft = [ascii ''.docx'', ascii ''.doc'']"
  by (simp add: parse_file_types_def ascii_def)

text \<open>
  \<^bold>\<open>C7.\<close> When \<open>search_files\<close> returns, the remote search was asked once, for
  \<open>2 * max_results\<close> candidates; the result is the list of the accepted entries of the
  answer, in order, cut after \<open>max_results\<close> (nothing at all for \<open>max_results \<le> 0\<close>); and for
  a \<open>file_types\<close> that lower-cases to \<open>docx\<close> every result has a path ending in \<open>.docx\<close>
  or \<open>.doc\<close>, whatever the remote search returned.
\<close>

theorem search_files_filters_and_truncates:
  "search_files rt st q ft mr = (Inr rs, st2) \<Longrightarrow>
     (str_lower rt ft = ascii ''docx'' \<and> r \<in> set rs \<longrightarrow>
        endswith (sr_file_path r) (ascii ''.docx'') \<or> endswith (sr_file_path r) (ascii ''.doc'')) \<and>
     int (length rs) \<le> max 0 mr \<and> (0 \<le> mr \<longrightarrow> int (length rs) \<le> mr) \<and>
     (\<exists>st1 c found.
        ensure_client rt st = (Inr (), st1) \<and> dropbox_client st1 = Some c \<and>
        files_search_v2 c q (2 * mr) = Inr found \<and>
        rs = take (nat mr) (concat (map (accepted (parse_file_types rt ft)) found)) \<and>
        remote_calls st2 = remote_calls st1 @ [SearchV2 q (2 * mr)])"
proof -
  assume res: "search_files rt st q ft mr = (Inr rs, st2)"
  obtain x st1 where e0: "ensure_client rt st = (x, st1)"
    by (cases "ensure_client rt st")
  with res have e: "ensure_client rt st = (Inr (), st1)"
    by (cases x) (simp_all add: search_files_def)
  from res e obtain c where c: "dropbox_client st1 = Some c"
    by (cases "dropbox_client st1") (simp_all add: search_files_def)
  from res e c obtain found where f: "files_search_v2 c q (2 * mr) = Inr found"
    by (cases "files_search_v2 c q (2 * mr)") (simp_all add: search_files_def mult.commute)
  from res e c f have fm: "filter_matches (parse_file_types rt ft) mr found [] = Inr rs"
    and calls: "remote_calls st2 = remote_calls st1 @ [SearchV2 q (2 * mr)]"
    by (auto simp: search_files_def mult.commute split: sum.splits)
  from filter_matches_eq [OF fm]
  have rs: "rs = take (nat mr) (concat (map (accepted (parse_file_types rt ft)) found))"
    by simp
  then have "length rs \<le> nat mr"
    by simp
  then have len: "int (length rs) \<le> max 0 mr \<and> (0 \<le> mr \<longrightarrow> int (length rs) \<le> mr)"
    by linarith
  have docx: "str_lower rt ft = ascii ''docx'' \<and> r \<in> set rs \<longrightarrow>
        endswith (sr_file_path r) (ascii ''.docx'') \<or> endswith (sr_file_path r) (ascii ''.doc'')"
  proof
    assume a: "str_lower rt ft = ascii ''docx'' \<and> r \<in> set rs"
    with rs have "r \<in> set (concat (map (accepted [ascii ''.docx'', ascii ''.doc'']) found))"
      by (auto simp: parse_file_types_docx dest: in_set_takeD)
    then obtain m where "r \<in> set (accepted [ascii ''.docx'', ascii ''.doc''] m)"
      by auto
    then show "endswith (sr_file_path r) (ascii ''.docx'') \<or>
               endswith (sr_file_path r) (ascii ''.doc'')"
      by (rule accepted_docx)
  qed
  from e c f rs calls have "\<exists>st1 c found.
        ensure_client rt st = (Inr (), st1) \<and> dropbox_client st1 = Some c \<and>
        files_search_v2 c q (2 * mr) = Inr found \<and>
        rs = take (nat mr) (concat (map (accepted (parse_file_types rt ft)) found)) \<and>
        remote_calls st2 = remote_calls st1 @ [SearchV2 q (2 * mr)]"
    by blast
  with docx len show ?thesis
    by blast
qed

lemma example_search_files:
  "fst (search_files (example_runtime example_files example_found)
          (ready_state (example_client example_files example_found))
          (ascii ''report'') (ascii ''DOCX'') 2) = Inr example_hits \<and>
   remote_calls (snd (search_files (example_runtime example_files example_found)
          (ready_state (example_client example_files example_found))
          (ascii ''report'') (ascii ''DOCX'') 2)) = [SearchV2 (ascii ''report'') 4]"
proof -
  have pf: "parse_file_types (example_runtime example_files example_found) (ascii ''DOCX'')
              = [ascii ''.docx'', ascii ''.doc'']"
    by code_simp
  have fs: "files_search_v2 (example_client example_files example_found) (ascii ''report'') 4
              = Inr (take 4 example_found)"
    by (simp add: example_client_def)
  have fm: "filter_matches [ascii ''.docx'', ascii ''.doc''] 2 (take 4 example_found) []
              = Inr example_hits"
    by (simp add: example_found_def example_hits_def endswith_def ascii_def)
  show ?thesis
    by (simp add: search_files_def ensure_client_ready pf fs fm)
      (simp add: ready_state_def pf fs fm)
qed

theorem search_files_filters_and_truncates_witness:
  "search_files (example_runtime example_files example_found)
          (ready_state (example_client example_files example_found))
          (ascii ''report'') (ascii ''DOCX'') 2
     = (Inr example_hits,
        snd (search_files (example_runtime example_files example_found)
          (ready_state (example_client example_files example_found))
          (ascii ''report'') (ascii ''DOCX'') 2)) \<and>
   str_lower (example_runtime example_files example_found) (ascii ''DOCX'') = ascii ''docx'' \<and>
   example_hits ! 1 \<in> set example_hits \<and>
   (endswith (sr_file_path (example_hits ! 1)) (ascii ''.docx'') \<or>
    endswith (sr_file_path (example_hits ! 1)) (ascii ''.doc'')) \<and>
   int (length example_hits) \<le> max 0 2 \<and> (0::int) \<le> 2 \<and> int (length example_hits) \<le> 2 \<and>
   remote_calls (snd (search_files (example_runtime example_files example_found)
          (ready_state (example_client example_files example_found))
          (ascii ''report'') (ascii ''DOCX'') 2)) = [SearchV2 (ascii ''report'') 4]"
proof -
  let ?call = "search_files (example_runtime example_files example_found)
          (ready_state (example_client example_files example_found))
          (ascii ''report'') (ascii ''DOCX'') 2"
  have res: "?call = (Inr example_hits, snd ?call)"
    using example_search_files by (simp add: prod_eq_iff)
  have low: "str_lower (example_runtime example_files example_found) (ascii ''DOCX'') = ascii ''docx''"
    unfolding example_lower by code_simp
  have mem: "example_hits ! 1 \<in> set example_hits"
    by (simp add: example_hits_def)
  from search_files_filters_and_truncates [OF res, where r = "example_hits ! 1"] low mem
  have "endswith (sr_file_path (example_hits ! 1)) (ascii ''.docx'') \<or>
        endswith (sr_file_path (example_hits ! 1)) (ascii ''.doc'')"
    and "int (length example_hits) \<le> max 0 2"
    and "(0::int) \<le> 2 \<longrightarrow> int (length example_hits) \<le> 2"
    by blast+
  with res low mem example_search_files show ?thesis
    by simp
qed

section \<open>The extractors\<close>

text \<open>
  \<^bold>\<open>C9.\<close> For every runtime and every byte sequence both extractors return a string. It is
  the fixed placeholder when the library is missing, and the placeholder carrying the
  exception's text when the reader, or the extraction of a page or paragraph, raises.
\<close>

theorem extractors_never_raise:
  "(\<exists>text. extract_text_from_pdf rt b = Inr text) \<and>
   (\<exists>text. extract_text_from_docx rt b = Inr text) \<and>
   (PyPDF2 rt = None \<longrightarrow>
      extract_text_from_pdf rt b
        = Inr (ascii ''[PDF text extraction not available - install PyPDF2]'')) \<and>
   (Document rt = None \<longrightarrow>
      extract_text_from_docx rt b
        = Inr (ascii ''[DOCX text extraction not available - install python-docx]'')) \<and>
   (PyPDF2 rt = Some pdf_reader \<and>
      (pdf_reader b = Inl e \<or> (\<exists>pages. pdf_reader b = Inr pages \<and> join_lines pages [] = Inl e)) \<longrightarrow>
      extract_text_from_pdf rt b
        = Inr (ascii ''[Error extracting PDF text: '' @ exc_str e @ ascii '']'')) \<and>
   (Document rt = Some document \<and>
      (document b = Inl e' \<or>
       (\<exists>paragraphs. document b = Inr paragraphs \<and> join_lines paragraphs [] = Inl e')) \<longrightarrow>
      extract_text_from_docx rt b
        = Inr (ascii ''[Error extracting DOCX text: '' @ exc_str e' @ ascii '']''))"
proof -
  have "\<exists>text. extract_text_from_pdf rt b = Inr text"
    by (simp add: extract_text_from_pdf_def split: option.split sum.split)
  moreover have "\<exists>text. extract_text_from_docx rt b = Inr text"
    by (simp add: extract_text_from_docx_def split: option.split sum.split)
  moreover have "PyPDF2 rt = None \<longrightarrow>
      extract_text_from_pdf rt b
        = Inr (ascii ''[PDF text extraction not available - install PyPDF2]'')"
    by (simp add: extract_text_from_pdf_def)
  moreover have "Document rt = None \<longrightarrow>
      extract_text_from_docx rt b
        = Inr (ascii ''[DOCX text extraction not available - install python-docx]'')"
    by (simp add: extract_text_from_docx_def)
  moreover have "PyPDF2 rt = Some pdf_reader \<and>
      (pdf_reader b = Inl e \<or> (\<exists>pages. pdf_reader b = Inr pages \<and> join_lines pages [] = Inl e)) \<longrightarrow>
      extract_text_from_pdf rt b
        = Inr (ascii ''[Error extracting PDF text: '' @ exc_str e @ ascii '']'')"
    by (auto simp: extract_text_from_pdf_def)
  moreover have "Document rt = Some document \<and>
      (document b = Inl e' \<or>
       (\<exists>paragraphs. document b = Inr paragraphs \<and> join_lines paragraphs [] = Inl e')) \<longrightarrow>
      extract_text_from_docx rt b
        = Inr (ascii ''[Error extracting DOCX text: '' @ exc_str e' @ ascii '']'')"
    by (auto simp: extract_text_from_docx_def)
  ultimately show ?thesis
    by blast
qed


theorem extractors_never_raise_witness:
  "PyPDF2 (example_runtime [] []) = None \<and>
   extract_text_from_pdf (example_runtime [] []) ''%PDF-1.4''
     = Inr (ascii ''[PDF text extraction not available - install PyPDF2]'') \<and>
   Document (example_runtime [] []) = None \<and>
   extract_text_from_docx (example_runtime [] []) ''PK''
     = Inr (ascii ''[DOCX text extraction not available - install python-docx]'') \<and>
   extract_text_from_pdf failing_runtime ''%PDF-1.4''
     = Inr (ascii ''[Error extracting PDF text: EOF marker not found]'') \<and>
   extract_text_from_docx failing_runtime ''PK''
     = Inr (ascii ''[Error extracting DOCX text: bad paragraph]'')"
proof -
  have none: "PyPDF2 (example_runtime [] []) = None" "Document (example_runtime [] []) = None"
    by (simp_all add: example_runtime_def)
  have some: "PyPDF2 failing_runtime = Some (\<lambda>b. Inl (OtherException (ascii ''EOF marker not found'')))"
    "Document failing_runtime = Some (\<lambda>b. Inr [Inr (ascii ''Hello''),
                                       Inl (OtherException (ascii ''bad paragraph''))])"
    by (simp_all add: failing_runtime_def)
  have jl: "join_lines [Inr (ascii ''Hello''), Inl (OtherException (ascii ''bad paragraph''))] []
      = Inl (OtherException (ascii ''bad paragraph''))"
    by simp
  from extractors_never_raise [where rt = "example_runtime [] []" and b = "''%PDF-1.4''"] none
  have a: "extract_text_from_pdf (example_runtime [] []) ''%PDF-1.4''
     = Inr (ascii ''[PDF text extraction not available - install PyPDF2]'')"
    by blast
  from extractors_never_raise [where rt = "example_runtime [] []" and b = "''PK''"] none
  have b: "extract_text_from_docx (example_runtime [] []) ''PK''
     = Inr (ascii ''[DOCX text extraction not available - install python-docx]'')"
    by blast
  from extractors_never_raise [where rt = failing_runtime and b = "''%PDF-1.4''"
      and pdf_reader = "\<lambda>b. Inl (OtherException (ascii ''EOF marker not found''))"
      and e = "OtherException (ascii ''EOF marker not found'')"] some
  have c: "extract_text_from_pdf failing_runtime ''%PDF-1.4''
     = Inr (ascii ''[Error extracting PDF text: '' @
            exc_str (OtherException (ascii ''EOF marker not found'')) @ ascii '']'')"
    by blast
  from extractors_never_raise [where rt = failing_runtime and b = "''PK''"
      and document = "\<lambda>b. Inr [Inr (ascii ''Hello''),
                                       Inl (OtherException (ascii ''bad paragraph''))]"
      and e' = "OtherException (ascii ''bad paragraph'')"] some jl
  have d: "extract_text_from_docx failing_runtime ''PK''
     = Inr (ascii ''[Error extracting DOCX text: '' @
            exc_str (OtherException (ascii ''bad paragraph'')) @ ascii '']'')"
    by blast
  from c have c': "extract_text_from_pdf failing_runtime ''%PDF-1.4''
     = Inr (ascii ''[Error extracting PDF text: EOF marker not found]'')"
    by (simp add: ascii_def)
  from d have d': "extract_text_from_docx failing_runtime ''PK''
     = Inr (ascii ''[Error extracting DOCX text: bad paragraph]'')"
    by (simp add: ascii_def)
  from none a b c' d' show ?thesis
    by blast
qed

end
